theory Spec2Isabelle
  imports Complex_Main
begin

section \<open>Tensors, errors and floating-point values\<close>

text \<open>
  The module \<^verbatim>\<open>torchmetrics/functional/classification.py\<close> works on torch tensors.
  A target is a label tensor; since every operation of the module on it is elementwise or
  a full reduction, it is represented by the list of its elements (its flattened view)
  together with its element type: \<^verbatim>\<open>torch.bool\<close> or \<^verbatim>\<open>torch.long\<close>.
  A prediction is either a label tensor of the same number of dimensions, or a tensor of
  per-class scores with one more dimension: a matrix with one row per element and a known
  number of columns (the class axis, axis 1), the row entries being the scores.

  Values of float tensors are real numbers extended by the two infinities and NaN. The
  model does not round: a quotient is the exact quotient, and a count is held exactly.
  A float32 tensor holds every count up to \<open>2 ^ 24\<close> exactly and stops counting there, so
  the model of an accumulation in float32 is that of the code for tensors of at most
  \<open>2 ^ 24\<close> elements; a statement about such an accumulation carries this bound. Signed
  zeros are not distinguished.

  Every raise of the source is a value \<open>Inl e\<close> of the result.
\<close>

datatype error = ValueError string | RuntimeError | IndexError

datatype label_tensor = BoolT "bool list" | LongT "int list"

datatype pred_tensor = Label label_tensor | Prob nat "real list list"

datatype fl = Fin real | PInf | NInf | NaN

datatype ftensor = Scalar fl | Vector "fl list"

text \<open>The largest \<open>n\<close> such that every natural number up to \<open>n\<close> is a float32 value.\<close>

definition float32_exact_max :: nat where
  "float32_exact_max = 2 ^ 24"

definition bnd :: "error + 'a \<Rightarrow> ('a \<Rightarrow> error + 'b) \<Rightarrow> error + 'b" where
  "bnd m f = (case m of Inl e \<Rightarrow> Inl e | Inr x \<Rightarrow> f x)"

text \<open>The elements of a label tensor as integers (\<^verbatim>\<open>.long()\<close>): \<open>True\<close> is 1.\<close>

fun vals :: "label_tensor \<Rightarrow> int list" where
  "vals (BoolT bs) = map (\<lambda>b. if b then 1 else 0) bs"
| "vals (LongT xs) = xs"

text \<open>
  An elementwise binary operation on two one-dimensional tensors, with torch's
  broadcasting: the sizes are equal, or one of them is 1; anything else raises.
\<close>

definition broadcast2 :: "('a \<Rightarrow> 'b \<Rightarrow> 'c) \<Rightarrow> 'a list \<Rightarrow> 'b list \<Rightarrow> error + 'c list" where
  "broadcast2 f xs ys =
     (if length xs = length ys then Inr (map2 f xs ys)
      else if length xs = 1 then Inr (map (f (hd xs)) ys)
      else if length ys = 1 then Inr (map (\<lambda>x. f x (hd ys)) xs)
      else Inl RuntimeError)"

text \<open>\<^verbatim>\<open>t.to(torch.long).sum()\<close> of a boolean tensor: the number of its true elements.\<close>

definition count_true :: "bool list \<Rightarrow> int" where
  "count_true bs = sum_list (map (\<lambda>b. if b then 1 else 0) bs)"

subsection \<open>Arg-max conversion\<close>

text \<open>The index of the first maximal element of a non-empty list.\<close>

definition argmax :: "real list \<Rightarrow> nat" where
  "argmax xs = (case xs of [] \<Rightarrow> 0
     | y # ys \<Rightarrow> length (takeWhile (\<lambda>x. x \<noteq> fold max ys y) xs))"

text \<open>
  Modelled from the spec: \<^verbatim>\<open>to_categorical\<close> of \<^verbatim>\<open>torchmetrics.utils\<close> is not among
  the sources. The spec (4.1): it converts \<open>pred\<close> to a label tensor by taking the arg-max
  along the specified axis (default: axis 1). Along axis 1 (or -1) that is the arg-max of
  every row, along axis 0 (or -2) that of every column; a reduction over an axis of size 0
  and an axis that does not exist raise.
\<close>

definition to_categorical :: "nat \<Rightarrow> real list list \<Rightarrow> int \<Rightarrow> error + label_tensor" where
  "to_categorical ncols rows argmax_dim =
     (if argmax_dim = 1 \<or> argmax_dim = -1 then
        (if ncols = 0 then Inl RuntimeError
         else Inr (LongT (map (\<lambda>r. int (argmax r)) rows)))
      else if argmax_dim = 0 \<or> argmax_dim = -2 then
        (if rows = [] then Inl RuntimeError
         else Inr (LongT (map (\<lambda>c. int (argmax c)) (transpose rows))))
      else Inl IndexError)"

text \<open>
  Lines 53-54 and 85-86: \<^verbatim>\<open>if pred.ndim == target.ndim + 1: pred = to_categorical(...)\<close>.
  The target has one dimension here, so the test holds exactly for a score matrix.
\<close>

definition convert_pred :: "pred_tensor \<Rightarrow> int \<Rightarrow> error + label_tensor" where
  "convert_pred pred argmax_dim =
     (case pred of Label p \<Rightarrow> Inr p | Prob ncols rows \<Rightarrow> to_categorical ncols rows argmax_dim)"

section \<open>Arithmetic of float values\<close>

fun fl_add :: "fl \<Rightarrow> fl \<Rightarrow> fl" where
  "fl_add (Fin a) (Fin b) = Fin (a + b)"
| "fl_add NaN y = NaN"
| "fl_add x NaN = NaN"
| "fl_add PInf NInf = NaN"
| "fl_add NInf PInf = NaN"
| "fl_add PInf y = PInf"
| "fl_add x PInf = PInf"
| "fl_add NInf y = NInf"
| "fl_add x NInf = NInf"

fun fl_mul :: "fl \<Rightarrow> fl \<Rightarrow> fl" where
  "fl_mul (Fin a) (Fin b) = Fin (a * b)"
| "fl_mul NaN y = NaN"
| "fl_mul x NaN = NaN"
| "fl_mul PInf (Fin b) = (if b = 0 then NaN else if 0 < b then PInf else NInf)"
| "fl_mul NInf (Fin b) = (if b = 0 then NaN else if 0 < b then NInf else PInf)"
| "fl_mul (Fin a) PInf = (if a = 0 then NaN else if 0 < a then PInf else NInf)"
| "fl_mul (Fin a) NInf = (if a = 0 then NaN else if 0 < a then NInf else PInf)"
| "fl_mul PInf PInf = PInf"
| "fl_mul NInf NInf = PInf"
| "fl_mul PInf NInf = NInf"
| "fl_mul NInf PInf = NInf"

text \<open>Division of float values (\<^verbatim>\<open>/\<close>, \<^verbatim>\<open>/=\<close>): a zero divisor gives an infinity or NaN.\<close>

fun fl_div :: "fl \<Rightarrow> fl \<Rightarrow> fl" where
  "fl_div (Fin a) (Fin b) =
     (if b = 0 then (if a = 0 then NaN else if 0 < a then PInf else NInf) else Fin (a / b))"
| "fl_div (Fin a) PInf = Fin 0"
| "fl_div (Fin a) NInf = Fin 0"
| "fl_div PInf (Fin b) = (if 0 \<le> b then PInf else NInf)"
| "fl_div NInf (Fin b) = (if 0 \<le> b then NInf else PInf)"
| "fl_div x y = NaN"

text \<open>\<^verbatim>\<open>torch.sum\<close> and \<^verbatim>\<open>torch.mean\<close> of a float vector; the mean of no element is \<open>0 / 0\<close>.\<close>

definition fl_sum :: "fl list \<Rightarrow> fl" where
  "fl_sum xs = foldl fl_add (Fin 0) xs"

definition fl_mean :: "fl list \<Rightarrow> fl" where
  "fl_mean xs = fl_div (fl_sum xs) (Fin (real (length xs)))"

text \<open>The elements of a float tensor; a tensor without dimension has one.\<close>

fun elems :: "ftensor \<Rightarrow> fl list" where
  "elems (Scalar x) = [x]"
| "elems (Vector xs) = xs"

section \<open>Per-class statistics: \<^verbatim>\<open>stat_scores\<close>\<close>

text \<open>
  Lines 56-62. \<^verbatim>\<open>pred == class_index\<close> and \<^verbatim>\<open>target == class_index\<close> are boolean
  tensors, their product is the elementwise conjunction (broadcast), and each count is
  the sum of the product as \<^verbatim>\<open>torch.long\<close>.
\<close>

definition stat_scores ::
  "pred_tensor \<Rightarrow> label_tensor \<Rightarrow> int \<Rightarrow> int \<Rightarrow> error + (int \<times> int \<times> int \<times> int \<times> int)" where
  "stat_scores pred target class_index argmax_dim =
     bnd (convert_pred pred argmax_dim) (\<lambda>p.
       let pe = map (\<lambda>x. x = class_index) (vals p);
           pn = map (\<lambda>x. x \<noteq> class_index) (vals p);
           te = map (\<lambda>x. x = class_index) (vals target);
           tn' = map (\<lambda>x. x \<noteq> class_index) (vals target)
       in
       bnd (broadcast2 (\<and>) pe te) (\<lambda>m_tp.
       bnd (broadcast2 (\<and>) pe tn') (\<lambda>m_fp.
       bnd (broadcast2 (\<and>) pn tn') (\<lambda>m_tn.
       bnd (broadcast2 (\<and>) pn te) (\<lambda>m_fn.
       Inr (count_true m_tp, count_true m_fp, count_true m_tn, count_true m_fn,
            count_true te))))))"

section \<open>Statistics of all classes: \<^verbatim>\<open>stat_scores_multiple_classes\<close>\<close>

text \<open>
  Modelled from the spec: \<^verbatim>\<open>get_num_classes\<close> of \<^verbatim>\<open>torchmetrics.utils\<close> is not among
  the sources. The spec (4.3): an optional \<open>num_classes\<close>, inferred as
  \<open>max(observed class id) + 1\<close> when omitted. With no element observed there is no
  maximum and the inference fails.
\<close>

definition get_num_classes :: "label_tensor \<Rightarrow> label_tensor \<Rightarrow> int option \<Rightarrow> error + int" where
  "get_num_classes pred target num_classes =
     (case num_classes of
        Some n \<Rightarrow> Inr n
      | None \<Rightarrow> (case vals pred @ vals target of
                   [] \<Rightarrow> Inl RuntimeError
                 | x # xs \<Rightarrow> Inr (fold max xs x + 1)))"

text \<open>Lines 90-93: \<^verbatim>\<open>if t.dtype != torch.bool: t = t.clamp_max(max=num_classes)\<close>.\<close>

fun clamp_max :: "label_tensor \<Rightarrow> int \<Rightarrow> label_tensor" where
  "clamp_max (BoolT bs) k = BoolT bs"
| "clamp_max (LongT xs) k = LongT (map (\<lambda>x. min x k) xs)"

text \<open>Lines 85-93, the steps before the reduction is looked at.\<close>

definition preprocess ::
  "pred_tensor \<Rightarrow> label_tensor \<Rightarrow> int option \<Rightarrow> int \<Rightarrow> error + (label_tensor \<times> label_tensor \<times> int)" where
  "preprocess pred target num_classes argmax_dim =
     bnd (convert_pred pred argmax_dim) (\<lambda>p.
     bnd (get_num_classes p target num_classes) (\<lambda>k.
     Inr (clamp_max p k, clamp_max target k, k)))"

definition possible_reductions :: "string list" where
  "possible_reductions = [''none'', ''sum'', ''elementwise_mean'']"

text \<open>\<^verbatim>\<open>torch.zeros((n, ))\<close>: a negative size raises.\<close>

definition zeros :: "int \<Rightarrow> error + real list" where
  "zeros n = (if n < 0 then Inl RuntimeError else Inr (replicate (nat n) 0))"

text \<open>
  \<^verbatim>\<open>acc.scatter_add_(0, index, src)\<close> on one-dimensional tensors: for every position \<open>j\<close>
  of \<open>index\<close>, \<open>acc[index[j]] += src[j]\<close>. It raises when \<open>index\<close> is longer than
  \<open>src\<close> and when an index is outside \<open>acc\<close>.
\<close>

fun scatter_add :: "real list \<Rightarrow> int list \<Rightarrow> real list \<Rightarrow> error + real list" where
  "scatter_add acc [] src = Inr acc"
| "scatter_add acc (i # idx) [] = Inl RuntimeError"
| "scatter_add acc (i # idx) (s # src) =
     (if 0 \<le> i \<and> i < int (length acc)
      then scatter_add (acc[nat i := acc ! nat i + s]) idx src
      else Inl RuntimeError)"

text \<open>
  Lines 99-121, the branch \<^verbatim>\<open>reduction == 'none'\<close>; the result before \<^verbatim>\<open>.float()\<close>.
  The accumulators of lines 103-115 are float32 tensors: the exact sums below are their
  values as long as no tensor has more than \<open>float32_exact_max\<close> elements.
\<close>

definition stats_none ::
  "label_tensor \<Rightarrow> label_tensor \<Rightarrow> int \<Rightarrow>
   error + (real list \<times> real list \<times> real list \<times> real list \<times> real list)" where
  "stats_none pred target num_classes =
     (let p = vals pred; t = vals target in
      bnd (zeros (num_classes + 1)) (\<lambda>tps0.
      bnd (zeros (num_classes + 1)) (\<lambda>fps0.
      bnd (zeros (num_classes + 1)) (\<lambda>fns0.
      bnd (zeros (num_classes + 1)) (\<lambda>sups0.
      bnd (broadcast2 (\<lambda>x y. if x = y then 1 else 0) p t) (\<lambda>match_true.
      let match_false = map (\<lambda>m. 1 - m) match_true in
      bnd (scatter_add tps0 p match_true) (\<lambda>tps.
      bnd (scatter_add fps0 p match_false) (\<lambda>fps.
      bnd (scatter_add fns0 t match_false) (\<lambda>fns.
      let tns = map (\<lambda>(a, b, c). real (length p) - (a + b + c)) (zip tps (zip fps fns)) in
      bnd (scatter_add sups0 t (map (\<lambda>m. 1) match_true)) (\<lambda>sups.
      let n = nat num_classes in
      Inr (take n tps, take n fps, take n tns, take n fns, take n sups)))))))))))"

text \<open>
  Lines 123-131, the aggregate of the branch \<^verbatim>\<open>'sum'\<close> and \<^verbatim>\<open>'elementwise_mean'\<close>,
  before the division of the latter. The prediction is a label tensor at this point, so
  \<^verbatim>\<open>stat_scores\<close> converts nothing.
\<close>

definition stats_sum ::
  "label_tensor \<Rightarrow> label_tensor \<Rightarrow> int \<Rightarrow> int \<Rightarrow> error + (real \<times> real \<times> real \<times> real \<times> real)" where
  "stats_sum pred target num_classes argmax_dim =
     bnd (broadcast2 (=) (vals pred) (vals target)) (\<lambda>m.
     let count_match_true = real_of_int (count_true m) in
     bnd (stat_scores (Label pred) target num_classes argmax_dim)
       (\<lambda>(oob_tp, oob_fp, oob_tn, oob_fn, oob_sup).
     let nelement = real (length (vals pred));
         tps = count_match_true - real_of_int oob_tp;
         fps = nelement - count_match_true - real_of_int oob_fp;
         fns = nelement - count_match_true - real_of_int oob_fn;
         tns = nelement * real_of_int (num_classes + 1) - (tps + fps + fns + real_of_int oob_tn);
         sups = nelement - real_of_int oob_sup
     in Inr (tps, fps, tns, fns, sups)))"

text \<open>
  Lines 80-140. The deprecation warning of lines 80-84 is not part of the model. The
  reduction is a string, as in the source.
\<close>

definition stat_scores_multiple_classes ::
  "pred_tensor \<Rightarrow> label_tensor \<Rightarrow> int option \<Rightarrow> int \<Rightarrow> string \<Rightarrow>
   error + (ftensor \<times> ftensor \<times> ftensor \<times> ftensor \<times> ftensor)" where
  "stat_scores_multiple_classes pred target num_classes argmax_dim reduction =
     bnd (preprocess pred target num_classes argmax_dim) (\<lambda>(p, t, k).
     if reduction \<notin> set possible_reductions
     then Inl (ValueError (''reduction type '' @ reduction @ '' not supported''))
     else if reduction = ''none'' then
       bnd (stats_none p t k) (\<lambda>(tps, fps, tns, fns, sups).
         Inr (Vector (map Fin tps), Vector (map Fin fps), Vector (map Fin tns),
              Vector (map Fin fns), Vector (map Fin sups)))
     else
       bnd (stats_sum p t k argmax_dim) (\<lambda>(tps, fps, tns, fns, sups).
         if reduction = ''elementwise_mean'' then
           (let d = Fin (real_of_int k) in
            Inr (Scalar (fl_div (Fin tps) d), Scalar (fl_div (Fin fps) d),
                 Scalar (fl_div (Fin tns) d), Scalar (fl_div (Fin fns) d),
                 Scalar (fl_div (Fin sups) d)))
         else
           Inr (Scalar (Fin tps), Scalar (Fin fps), Scalar (Fin tns), Scalar (Fin fns),
                Scalar (Fin sups))))"

section \<open>Precision and recall: \<^verbatim>\<open>precision_recall\<close>\<close>

datatype class_reduction = Micro | Macro | Weighted | No_class_reduction

text \<open>
  Modelled from the spec: \<^verbatim>\<open>class_reduce\<close> of \<^verbatim>\<open>torchmetrics.utils\<close> is not among
  the sources. The spec (4.4, 6): it accepts a numerator vector, a denominator vector, a
  support vector and a strategy in \<open>{micro, macro, weighted, none}\<close>, and returns a scalar
  (micro, macro, weighted) or a vector (none). micro = sum(numerator) / sum(denominator);
  macro = mean of the per-class ratios, \<open>0 / 0\<close> contributing 0; weighted = the
  support-weighted mean of the per-class ratios; none = the vector of per-class ratios.
\<close>

definition ratio :: "fl \<Rightarrow> fl \<Rightarrow> fl" where
  "ratio n d = (let q = fl_div n d in if q = NaN then Fin 0 else q)"

definition class_reduce :: "fl list \<Rightarrow> fl list \<Rightarrow> fl list \<Rightarrow> class_reduction \<Rightarrow> ftensor" where
  "class_reduce num denom weights cr =
     (case cr of
        Micro \<Rightarrow> Scalar (ratio (fl_sum num) (fl_sum denom))
      | Macro \<Rightarrow> Scalar (fl_mean (map2 ratio num denom))
      | Weighted \<Rightarrow>
          Scalar (fl_sum (map2 (\<lambda>f w. fl_mul f (fl_div w (fl_sum weights)))
                    (map2 ratio num denom) weights))
      | No_class_reduction \<Rightarrow> Vector (map2 ratio num denom))"

text \<open>
  The three shapes of the value \<^verbatim>\<open>precision_recall\<close> returns: the dictionary of the raw
  state (in insertion order), the pair, or the triple with the support.
\<close>

datatype pr_result =
    State "(string \<times> ftensor) list"
  | PrecRec ftensor ftensor
  | PrecRecSup ftensor ftensor ftensor

text \<open>
  Lines 200-208. \<^verbatim>\<open>stat_scores_multiple_classes\<close> is called with its defaults
  \<^verbatim>\<open>argmax_dim=1\<close> and \<^verbatim>\<open>reduction='none'\<close>; \<^verbatim>\<open>tps + fps\<close> is the elementwise sum.
  The strategy is the enumeration of the spec. The deprecation warning of lines 194-198
  is not part of the model.
\<close>

definition precision_recall ::
  "pred_tensor \<Rightarrow> label_tensor \<Rightarrow> int option \<Rightarrow> class_reduction \<Rightarrow> bool \<Rightarrow> bool \<Rightarrow>
   error + pr_result" where
  "precision_recall pred target num_classes class_reduction return_support return_state =
     bnd (stat_scores_multiple_classes pred target num_classes 1 ''none'')
       (\<lambda>(tps, fps, tns, fns, sups).
     let precision = class_reduce (elems tps) (map2 fl_add (elems tps) (elems fps)) (elems sups)
           class_reduction;
         recall = class_reduce (elems tps) (map2 fl_add (elems tps) (elems fns)) (elems sups)
           class_reduction
     in
     if return_state
     then Inr (State [(''tps'', tps), (''fps'', fps), (''fns'', fns), (''sups'', sups)])
     else if return_support then Inr (PrecRecSup precision recall sups)
     else Inr (PrecRec precision recall))"

section \<open>Dice score: \<^verbatim>\<open>dice_score\<close>\<close>

datatype reduction = Elementwise_mean | Sum | No_reduction

text \<open>
  Modelled from the spec: \<^verbatim>\<open>reduce\<close> of \<^verbatim>\<open>torchmetrics.utils\<close> is not among the
  sources. The spec (4.6, 6): a function of a float vector and a strategy in
  \<open>{elementwise_mean, sum, none}\<close> that applies the mean, the sum or the identity.
\<close>

definition reduce :: "fl list \<Rightarrow> reduction \<Rightarrow> ftensor" where
  "reduce to_reduce r =
     (case r of
        Elementwise_mean \<Rightarrow> Scalar (fl_mean to_reduce)
      | Sum \<Rightarrow> Scalar (fl_sum to_reduce)
      | No_reduction \<Rightarrow> Vector to_reduce)"

text \<open>Lines 381-383: the score of a class from its counts.\<close>

definition score_cls :: "int \<Rightarrow> int \<Rightarrow> int \<Rightarrow> fl \<Rightarrow> fl" where
  "score_cls tp fp fn nan_score =
     (let denom = real_of_int (2 * tp + fp + fn) in
      if denom \<noteq> 0 then fl_div (Fin (real_of_int (2 * tp))) (Fin denom) else nan_score)"

text \<open>
  Lines 374-385, the loop over the classes \<open>i\<close> of \<^verbatim>\<open>range(bg, num_classes)\<close>. The state is
  the tensor \<open>scores\<close> and, as a record of what the loop did, the list of the classes for
  which \<^verbatim>\<open>stat_scores\<close> was called.
\<close>

fun dice_loop ::
  "pred_tensor \<Rightarrow> label_tensor \<Rightarrow> nat \<Rightarrow> fl \<Rightarrow> fl \<Rightarrow> nat list \<Rightarrow> fl list \<times> nat list \<Rightarrow>
   error + (fl list \<times> nat list)" where
  "dice_loop pred target bg nan_score no_fg_score [] st = Inr st"
| "dice_loop pred target bg nan_score no_fg_score (i # is) (scores, calls) =
     (if int i \<notin> set (vals target)
      then dice_loop pred target bg nan_score no_fg_score is
             (scores[i - bg := fl_add (scores ! (i - bg)) no_fg_score], calls)
      else
        bnd (stat_scores pred target (int i) 1) (\<lambda>(tp, fp, tn, fn, sp).
          dice_loop pred target bg nan_score no_fg_score is
            (scores[i - bg := fl_add (scores ! (i - bg)) (score_cls tp fp fn nan_score)],
             calls @ [i])))"

text \<open>
  Lines 371-385: the vector \<open>scores\<close> before the final reduction. \<^verbatim>\<open>pred.shape[1]\<close> raises
  on a prediction of one dimension, and \<^verbatim>\<open>torch.zeros\<close> on a negative size.
\<close>

definition dice_scores ::
  "pred_tensor \<Rightarrow> label_tensor \<Rightarrow> bool \<Rightarrow> fl \<Rightarrow> fl \<Rightarrow> error + (fl list \<times> nat list)" where
  "dice_scores pred target bg nan_score no_fg_score =
     (case pred of
        Label p \<Rightarrow> Inl IndexError
      | Prob num_classes rows \<Rightarrow>
          (let bg' = (if bg then 0 else 1) in
           if num_classes < bg' then Inl RuntimeError
           else dice_loop pred target bg' nan_score no_fg_score [bg'..<num_classes]
                  (replicate (num_classes - bg') (Fin 0), [])))"

definition dice_score ::
  "pred_tensor \<Rightarrow> label_tensor \<Rightarrow> bool \<Rightarrow> fl \<Rightarrow> fl \<Rightarrow> reduction \<Rightarrow> error + ftensor" where
  "dice_score pred target bg nan_score no_fg_score reduction =
     bnd (dice_scores pred target bg nan_score no_fg_score) (\<lambda>(scores, calls).
       Inr (reduce scores reduction))"

section \<open>Row normalisation of a confusion matrix: \<^verbatim>\<open>_confmat_normalize\<close>\<close>

text \<open>The decimal numeral of a natural number, as an f-string prints it.\<close>

definition digit_char :: "nat \<Rightarrow> char" where
  "digit_char d = ''0123456789'' ! d"

fun str_of_nat :: "nat \<Rightarrow> string" where
  "str_of_nat n =
     (if n < 10 then [digit_char n] else str_of_nat (n div 10) @ [digit_char (n mod 10)])"

declare str_of_nat.simps [simp del]

text \<open>
  Lines 143-150. The matrix is the list of its rows; \<^verbatim>\<open>cm.sum(-1, keepdim=True)\<close> is the
  sum of each row. The result is the normalised matrix together with the advisories
  given to \<^verbatim>\<open>rank_zero_warn\<close>, in order.
\<close>

definition confmat_normalize :: "fl list list \<Rightarrow> fl list list \<times> string list" where
  "confmat_normalize cm =
     (let cm1 = map (\<lambda>row. map (\<lambda>x. fl_div x (fl_sum row)) row) cm;
          nan_elements = length (filter (\<lambda>x. x = NaN) (concat cm1))
      in
      if nan_elements \<noteq> 0
      then (map (map (\<lambda>x. if x = NaN then Fin 0 else x)) cm1,
            [str_of_nat nan_elements @
             '' nan values found in confusion matrix have been replaced with zeros.''])
      else (cm1, []))"

section \<open>Properties of the per-class statistics\<close>

lemma bnd_Inr_iff: "bnd m f = Inr y \<longleftrightarrow> (\<exists>x. m = Inr x \<and> f x = Inr y)"
  by (cases m) (simp_all add: bnd_def)

lemma bnd_Inl_iff: "bnd m f = Inl e \<longleftrightarrow> m = Inl e \<or> (\<exists>x. m = Inr x \<and> f x = Inl e)"
  by (cases m) (simp_all add: bnd_def)

lemma count_true_nonneg: "0 \<le> count_true bs"
  unfolding count_true_def by (induction bs) auto

lemma count_true_map2_split:
  "length xs = length ys \<Longrightarrow>
   count_true (map2 (\<and>) (map P xs) (map Q ys)) +
   count_true (map2 (\<and>) (map (\<lambda>x. \<not> P x) xs) (map Q ys)) = count_true (map Q ys)"
  unfolding count_true_def by (induction xs ys rule: list_induct2) auto

lemma count_true_map2_total:
  "length xs = length ys \<Longrightarrow>
   count_true (map2 (\<and>) (map P xs) (map Q ys)) +
   count_true (map2 (\<and>) (map P xs) (map (\<lambda>y. \<not> Q y) ys)) +
   count_true (map2 (\<and>) (map (\<lambda>x. \<not> P x) xs) (map (\<lambda>y. \<not> Q y) ys)) +
   count_true (map2 (\<and>) (map (\<lambda>x. \<not> P x) xs) (map Q ys)) = int (length ys)"
  unfolding count_true_def by (induction xs ys rule: list_induct2) auto

lemma stat_scores_same_shape:
  assumes "convert_pred pred argmax_dim = Inr p"
    and "length (vals p) = length (vals target)"
  shows "stat_scores pred target c argmax_dim =
     Inr (count_true (map2 (\<and>) (map (\<lambda>x. x = c) (vals p)) (map (\<lambda>x. x = c) (vals target))),
          count_true (map2 (\<and>) (map (\<lambda>x. x = c) (vals p)) (map (\<lambda>x. x \<noteq> c) (vals target))),
          count_true (map2 (\<and>) (map (\<lambda>x. x \<noteq> c) (vals p)) (map (\<lambda>x. x \<noteq> c) (vals target))),
          count_true (map2 (\<and>) (map (\<lambda>x. x \<noteq> c) (vals p)) (map (\<lambda>x. x = c) (vals target))),
          count_true (map (\<lambda>x. x = c) (vals target)))"
  using assms by (simp add: stat_scores_def bnd_def broadcast2_def Let_def)

lemma stat_scores_nonneg:
  assumes "stat_scores pred target c d = Inr (tp, fp, tn, fn, sp)"
  shows "0 \<le> tp \<and> 0 \<le> fp \<and> 0 \<le> tn \<and> 0 \<le> fn \<and> 0 \<le> sp"
  using assms by (auto simp: stat_scores_def Let_def bnd_Inr_iff count_true_nonneg)

text \<open>
  C1. For a prediction and a target of matching shape (the prediction taken after the
  arg-max conversion when it has one more dimension) and every class index,
  \<^verbatim>\<open>stat_scores\<close> returns five counts; none is negative, TP + FP + TN + FN is the number
  of elements, and TP + FN is the support.
\<close>

theorem stat_scores_counts:
  assumes "convert_pred pred argmax_dim = Inr p"
    and "length (vals p) = length (vals target)"
  shows "\<exists>tp fp tn fn sp.
     stat_scores pred target class_index argmax_dim = Inr (tp, fp, tn, fn, sp) \<and>
     0 \<le> tp \<and> 0 \<le> fp \<and> 0 \<le> tn \<and> 0 \<le> fn \<and> 0 \<le> sp \<and>
     tp + fp + tn + fn = int (length (vals target)) \<and> tp + fn = sp"
proof -
  let ?c = class_index
  have total: "count_true (map2 (\<and>) (map (\<lambda>x. x = ?c) (vals p)) (map (\<lambda>x. x = ?c) (vals target))) +
      count_true (map2 (\<and>) (map (\<lambda>x. x = ?c) (vals p)) (map (\<lambda>x. x \<noteq> ?c) (vals target))) +
      count_true (map2 (\<and>) (map (\<lambda>x. x \<noteq> ?c) (vals p)) (map (\<lambda>x. x \<noteq> ?c) (vals target))) +
      count_true (map2 (\<and>) (map (\<lambda>x. x \<noteq> ?c) (vals p)) (map (\<lambda>x. x = ?c) (vals target))) =
      int (length (vals target))"
    using count_true_map2_total [OF assms(2), of "\<lambda>x. x = ?c" "\<lambda>x. x = ?c"] by simp
  have support: "count_true (map2 (\<and>) (map (\<lambda>x. x = ?c) (vals p)) (map (\<lambda>x. x = ?c) (vals target))) +
      count_true (map2 (\<and>) (map (\<lambda>x. x \<noteq> ?c) (vals p)) (map (\<lambda>x. x = ?c) (vals target))) =
      count_true (map (\<lambda>x. x = ?c) (vals target))"
    using count_true_map2_split [OF assms(2), of "\<lambda>x. x = ?c" "\<lambda>x. x = ?c"] by simp
  show ?thesis
    unfolding stat_scores_same_shape [OF assms]
    using total support by (simp add: count_true_nonneg)
qed

theorem stat_scores_counts_witness:
  "stat_scores (Label (LongT [1, 2, 3])) (LongT [0, 2, 3]) 1 1 = Inr (0, 1, 2, 0, 0)"
proof -
  have conv: "convert_pred (Label (LongT [1, 2, 3])) 1 = Inr (LongT [1, 2, 3])"
    by (simp add: convert_pred_def)
  have shape: "length (vals (LongT [1, 2, 3])) = length (vals (LongT [0, 2, 3]))"
    by simp
  from stat_scores_counts [OF conv shape, of 1] show ?thesis
    by (simp add: convert_pred_def stat_scores_def bnd_def broadcast2_def count_true_def)
qed

section \<open>Properties of the statistics of all classes\<close>

lemma zeros_Inr: "zeros n = Inr z \<Longrightarrow> 0 \<le> n \<and> z = replicate (nat n) 0"
  by (simp add: zeros_def split: if_splits)

lemma sum_list_take_update:
  fixes xs :: "real list"
  shows "k < length xs \<Longrightarrow>
    sum_list (take n (xs[k := xs ! k + s])) = sum_list (take n xs) + (if k < n then s else 0)"
proof (induction xs arbitrary: k n)
  case Nil
  then show ?case by simp
next
  case (Cons x xs)
  show ?case
  proof (cases n)
    case 0
    then show ?thesis by simp
  next
    case (Suc m)
    show ?thesis
    proof (cases k)
      case 0
      then show ?thesis using Suc by simp
    next
      case (Suc j)
      then have "j < length xs" using Cons.prems by simp
      from Cons.IH [OF this, of m] show ?thesis using Suc \<open>n = Suc m\<close> by simp
    qed
  qed
qed

lemma scatter_add_length: "scatter_add acc idx src = Inr r \<Longrightarrow> length r = length acc"
  by (induction acc idx src rule: scatter_add.induct) (auto split: if_splits)

lemma scatter_add_index_le: "scatter_add acc idx src = Inr r \<Longrightarrow> length idx \<le> length src"
  by (induction acc idx src rule: scatter_add.induct) (auto split: if_splits)

lemma scatter_add_index_range:
  "scatter_add acc idx src = Inr r \<Longrightarrow> i \<in> set idx \<Longrightarrow> 0 \<le> i \<and> i < int (length acc)"
  by (induction acc idx src rule: scatter_add.induct) (auto split: if_splits)

lemma scatter_add_sum_take:
  "scatter_add acc idx src = Inr r \<Longrightarrow>
   sum_list (take n r) =
   sum_list (take n acc) + sum_list (map snd (filter (\<lambda>(i, s). i < int n) (zip idx src)))"
proof (induction acc idx src rule: scatter_add.induct)
  case (1 acc src)
  then show ?case by simp
next
  case (2 acc i idx)
  then show ?case by simp
next
  case (3 acc i idx s src)
  from "3.prems" have rng: "0 \<le> i" "i < int (length acc)"
    and rest: "scatter_add (acc[nat i := acc ! nat i + s]) idx src = Inr r"
    by (auto split: if_splits)
  have k: "nat i < length acc" using rng by simp
  have "sum_list (take n r) =
      sum_list (take n (acc[nat i := acc ! nat i + s])) +
      sum_list (map snd (filter (\<lambda>(i, s). i < int n) (zip idx src)))"
    using "3.IH" rng rest by simp
  also have "sum_list (take n (acc[nat i := acc ! nat i + s])) =
      sum_list (take n acc) + (if nat i < n then s else 0)"
    by (rule sum_list_take_update [OF k])
  finally show ?case using rng by (auto simp: nat_less_iff)
qed

lemma count_ones:
  "length idx \<le> length src \<Longrightarrow>
   sum_list (map snd (filter (\<lambda>(i, s). P i) (zip idx (map (\<lambda>m. 1::real) src)))) =
   real (length (filter P idx))"
proof (induction idx arbitrary: src)
  case Nil
  then show ?case by simp
next
  case (Cons i idx)
  then obtain s src' where "src = s # src'" by (cases src) auto
  with Cons show ?case by simp
qed

lemma stats_none_Inr:
  assumes "stats_none p t k = Inr (tps, fps, tns, fns, sups)"
  shows "length tps = nat k" "length fps = nat k" "length tns = nat k" "length fns = nat k"
    "length sups = nat k"
    "\<And>c. c < nat k \<Longrightarrow> tps ! c + fps ! c + fns ! c + tns ! c = real (length (vals p))"
    "sum_list sups = real (length (filter (\<lambda>x. x < k) (vals t)))"
    "\<And>x. x \<in> set (vals t) \<Longrightarrow> 0 \<le> x \<and> x \<le> k"
proof -
  from assms obtain m tps1 fps1 fns1 sups1 where
    k0: "0 \<le> k + 1"
    and m: "broadcast2 (\<lambda>x y. if x = y then 1 else 0) (vals p) (vals t) = Inr m"
    and s1: "scatter_add (replicate (nat (k + 1)) 0) (vals p) m = Inr tps1"
    and s2: "scatter_add (replicate (nat (k + 1)) 0) (vals p) (map (\<lambda>m. 1 - m) m) = Inr fps1"
    and s3: "scatter_add (replicate (nat (k + 1)) 0) (vals t) (map (\<lambda>m. 1 - m) m) = Inr fns1"
    and s4: "scatter_add (replicate (nat (k + 1)) 0) (vals t) (map (\<lambda>m. 1) m) = Inr sups1"
    and r: "tps = take (nat k) tps1" "fps = take (nat k) fps1" "fns = take (nat k) fns1"
      "sups = take (nat k) sups1"
      "tns = take (nat k) (map (\<lambda>(a, b, c). real (length (vals p)) - (a + b + c))
          (zip tps1 (zip fps1 fns1)))"
    by (auto simp: stats_none_def Let_def bnd_Inr_iff dest!: zeros_Inr)
  have l: "length tps1 = nat (k + 1)" "length fps1 = nat (k + 1)" "length fns1 = nat (k + 1)"
    "length sups1 = nat (k + 1)"
    using scatter_add_length [OF s1] scatter_add_length [OF s2] scatter_add_length [OF s3]
      scatter_add_length [OF s4] by simp_all
  have le: "nat k \<le> nat (k + 1)" by simp
  show "length tps = nat k" "length fps = nat k" "length tns = nat k" "length fns = nat k"
    "length sups = nat k"
    using r l le by simp_all
  show "tps ! c + fps ! c + fns ! c + tns ! c = real (length (vals p))" if "c < nat k" for c
  proof -
    have "c < nat (k + 1)" using that by simp
    then show ?thesis using that r l by simp
  qed
  have "sum_list sups = sum_list (map snd (filter (\<lambda>(i, s). i < int (nat k)) (zip (vals t) (map (\<lambda>m. 1) m))))"
    proof -
    have z: "sum_list (take (nat k) (replicate (nat (k + 1)) (0::real))) = 0"
      by (simp add: sum_list_replicate)
    show ?thesis using scatter_add_sum_take [OF s4, of "nat k"] r(4) unfolding z by simp
  qed
  also have "\<dots> = real (length (filter (\<lambda>i. i < int (nat k)) (vals t)))"
    by (rule count_ones) (use scatter_add_index_le [OF s4] in simp)
  also have "filter (\<lambda>i. i < int (nat k)) (vals t) = filter (\<lambda>x. x < k) (vals t)"
  proof (rule filter_cong [OF refl])
    fix x assume "x \<in> set (vals t)"
    from scatter_add_index_range [OF s4 this] show "(x < int (nat k)) = (x < k)" by auto
  qed
  finally show "sum_list sups = real (length (filter (\<lambda>x. x < k) (vals t)))" .
  show "0 \<le> x \<and> x \<le> k" if "x \<in> set (vals t)" for x
    using scatter_add_index_range [OF s4 that] k0 by auto
qed

text \<open>
  The branch returns on labels of matching shape that lie between 0 and the number of
  classes, as the clamped labels of a non-negative input do.
\<close>

lemma scatter_add_returns:
  "length idx \<le> length src \<Longrightarrow> \<forall>i\<in>set idx. 0 \<le> i \<and> i < int (length acc) \<Longrightarrow>
   \<exists>r. scatter_add acc idx src = Inr r"
  by (induction acc idx src rule: scatter_add.induct) auto

lemma stats_none_returns:
  assumes "length (vals p) = length (vals t)" and "- 1 \<le> k"
    and "\<forall>x\<in>set (vals p) \<union> set (vals t). 0 \<le> x \<and> x \<le> k"
  shows "\<exists>r. stats_none p t k = Inr r"
proof -
  let ?Z = "replicate (nat (k + 1)) (0::real)"
  let ?M = "map2 (\<lambda>x y. if x = y then 1 else 0 :: real) (vals p) (vals t)"
  have idx: "\<forall>i\<in>set (vals p). 0 \<le> i \<and> i < int (length ?Z)"
    "\<forall>i\<in>set (vals t). 0 \<le> i \<and> i < int (length ?Z)"
    using assms(2,3) by auto
  obtain tps where 1: "scatter_add ?Z (vals p) ?M = Inr tps"
    using scatter_add_returns [OF _ idx(1), of ?M] assms(1) by auto
  obtain fps where 2: "scatter_add ?Z (vals p) (map (\<lambda>m. 1 - m) ?M) = Inr fps"
    using scatter_add_returns [OF _ idx(1), of "map (\<lambda>m. 1 - m) ?M"] assms(1) by auto
  obtain fns where 3: "scatter_add ?Z (vals t) (map (\<lambda>m. 1 - m) ?M) = Inr fns"
    using scatter_add_returns [OF _ idx(2), of "map (\<lambda>m. 1 - m) ?M"] assms(1) by auto
  obtain sups where 4: "scatter_add ?Z (vals t) (map (\<lambda>m. 1) ?M) = Inr sups"
    using scatter_add_returns [OF _ idx(2), of "map (\<lambda>m. 1) ?M"] assms(1) by auto
  show ?thesis
    using assms(1,2) 1 2 3 4
    by (simp add: stats_none_def Let_def bnd_def zeros_def broadcast2_def)
qed

lemma vals_clamp_max_length: "length (vals (clamp_max t k)) = length (vals t)"
  by (cases t) simp_all

lemma clamp_max_below:
  "length (filter (\<lambda>x. x < k) (vals (clamp_max t k))) = length (filter (\<lambda>x. x < k) (vals t))"
proof (cases t)
  case (BoolT bs)
  then show ?thesis by simp
next
  case (LongT xs)
  have "length (filter (\<lambda>x. x < k) (map (\<lambda>x. min x k) xs)) = length (filter (\<lambda>x. x < k) xs)"
    by (induction xs) auto
  with LongT show ?thesis by simp
qed

lemma length_filter_split:
  "real (length (filter (\<lambda>x. x < k) xs)) = real (length xs) - real (length (filter (\<lambda>x. (k::int) \<le> x) xs))"
  by (induction xs) auto

lemma fold_max_ge: "(x::int) \<in> set (y # ys) \<Longrightarrow> x \<le> fold max ys y"
  using Max_ge [of "set (y # ys)" x] by (simp only: Max.set_eq_fold List.finite_set)

lemma get_num_classes_inferred:
  assumes "get_num_classes p t None = Inr k" and "x \<in> set (vals t)"
  shows "x < k"
proof -
  from assms obtain y ys where ys: "vals p @ vals t = y # ys" and k: "k = fold max ys y + 1"
    by (auto simp: get_num_classes_def split: list.splits)
  have "x \<in> set (y # ys)" using assms(2) ys [symmetric] by simp
  from fold_max_ge [OF this] show ?thesis using k by simp
qed

lemma zeros_Inl: "zeros n = Inl e \<Longrightarrow> e = RuntimeError"
  by (simp add: zeros_def split: if_splits)

lemma broadcast2_Inl: "broadcast2 f xs ys = Inl e \<Longrightarrow> e = RuntimeError"
  by (simp add: broadcast2_def split: if_splits)

lemma scatter_add_Inl: "scatter_add acc idx src = Inl e \<Longrightarrow> e = RuntimeError"
  by (induction acc idx src rule: scatter_add.induct) (auto split: if_splits)

lemma stat_scores_Label_Inl: "stat_scores (Label p) t c d = Inl e \<Longrightarrow> e = RuntimeError"
  by (auto simp: stat_scores_def convert_pred_def Let_def bnd_Inl_iff dest: broadcast2_Inl)

lemma stats_none_Inl: "stats_none p t k = Inl e \<Longrightarrow> e = RuntimeError"
  by (auto simp: stats_none_def Let_def bnd_Inl_iff
      dest: broadcast2_Inl zeros_Inl scatter_add_Inl)

lemma stats_sum_Inl: "stats_sum p t k d = Inl e \<Longrightarrow> e = RuntimeError"
  by (auto simp: stats_sum_def Let_def bnd_Inl_iff split: prod.splits
      dest: broadcast2_Inl stat_scores_Label_Inl)

lemma preprocess_Inl: "preprocess pred t nc d = Inl e \<Longrightarrow> e = RuntimeError \<or> e = IndexError"
  by (auto simp: preprocess_def bnd_Inl_iff convert_pred_def to_categorical_def
      get_num_classes_def split: pred_tensor.splits if_splits option.splits list.splits)

lemma valid_reduction_no_ValueError:
  assumes "reduction \<in> set possible_reductions"
  shows "stat_scores_multiple_classes pred target nc d reduction \<noteq> Inl (ValueError msg)"
proof
  assume a: "stat_scores_multiple_classes pred target nc d reduction = Inl (ValueError msg)"
  show False
  proof (cases "preprocess pred target nc d")
    case (Inl e)
    then show False using a preprocess_Inl [OF Inl]
      by (auto simp: stat_scores_multiple_classes_def bnd_def)
  next
    case (Inr x)
    obtain p t k where x: "x = (p, t, k)" by (cases x)
    show False
    proof (cases "reduction = ''none''")
      case True
      then show False using a Inr x assms
        by (auto simp: stat_scores_multiple_classes_def bnd_Inl_iff bnd_def[of "Inr _"]
            split: prod.splits dest: stats_none_Inl)
    next
      case False
      then show False using a Inr x assms
        by (auto simp: stat_scores_multiple_classes_def bnd_Inl_iff bnd_def[of "Inr _"] Let_def
            split: prod.splits if_splits dest: stats_sum_Inl)
    qed
  qed
qed

text \<open>
  C2, as the code has it. Let \<open>k\<close> be the number of classes (given, or inferred). When
  \<^verbatim>\<open>stat_scores_multiple_classes\<close> returns with \<^verbatim>\<open>reduction = 'none'\<close>, its five
  results are vectors of length \<open>k\<close>, and for every class \<open>c < k\<close> the sum
  \<open>tp[c] + fp[c] + fn[c] + tn[c]\<close> is the number of elements of the prediction (which is that
  of the target for matching shapes). The support vector sums to the number of elements of
  the target less those at or above \<open>k\<close>: these fall into the overflow bucket, which is
  dropped. It sums to the number of elements when the number of classes is inferred.
  The counts are accumulated in float32, so this is stated for tensors of at most
  \<open>2 ^ 24\<close> elements.
\<close>

theorem none_reduction_invariant:
  assumes conv: "convert_pred pred argmax_dim = Inr p"
    and nc: "get_num_classes p target num_classes = Inr k"
    and size_pred: "length (vals p) \<le> float32_exact_max"
    and size_target: "length (vals target) \<le> float32_exact_max"
    and run: "stat_scores_multiple_classes pred target num_classes argmax_dim ''none'' =
       Inr (tps, fps, tns, fns, sups)"
  shows "\<exists>tpv fpv tnv fnv supv.
     tps = Vector (map Fin tpv) \<and> fps = Vector (map Fin fpv) \<and> tns = Vector (map Fin tnv) \<and>
     fns = Vector (map Fin fnv) \<and> sups = Vector (map Fin supv) \<and>
     length tpv = nat k \<and> length fpv = nat k \<and> length tnv = nat k \<and> length fnv = nat k \<and>
     length supv = nat k \<and>
     (\<forall>c<nat k. tpv ! c + fpv ! c + fnv ! c + tnv ! c = real (length (vals p))) \<and>
     sum_list supv =
       real (length (vals target)) - real (length (filter (\<lambda>x. k \<le> x) (vals target))) \<and>
     (num_classes = None \<longrightarrow> sum_list supv = real (length (vals target)))"
proof -
  have pre: "preprocess pred target num_classes argmax_dim =
      Inr (clamp_max p k, clamp_max target k, k)"
    using conv nc by (simp add: preprocess_def bnd_def)
  from run obtain tpv fpv tnv fnv supv where
    st: "stats_none (clamp_max p k) (clamp_max target k) k = Inr (tpv, fpv, tnv, fnv, supv)"
    and out: "tps = Vector (map Fin tpv)" "fps = Vector (map Fin fpv)" "tns = Vector (map Fin tnv)"
      "fns = Vector (map Fin fnv)" "sups = Vector (map Fin supv)"
    unfolding stat_scores_multiple_classes_def pre
    by (auto simp: bnd_Inr_iff possible_reductions_def)
  note facts = stats_none_Inr [OF st]
  have per_class: "\<forall>c<nat k. tpv ! c + fpv ! c + fnv ! c + tnv ! c = real (length (vals p))"
    using facts(6) by (simp add: vals_clamp_max_length)
  have sup: "sum_list supv =
      real (length (vals target)) - real (length (filter (\<lambda>x. k \<le> x) (vals target)))"
    using facts(7) by (simp add: clamp_max_below length_filter_split)
  have inferred: "sum_list supv = real (length (vals target))" if "num_classes = None"
  proof -
    have "\<not> k \<le> x" if "x \<in> set (vals target)" for x
      using get_num_classes_inferred [of p target k x] nc \<open>num_classes = None\<close> that by simp
    then have "filter (\<lambda>x. k \<le> x) (vals target) = []"
      by (simp add: filter_empty_conv)
    with sup show ?thesis by simp
  qed
  show ?thesis
    using out facts(1-5) per_class sup inferred by blast
qed

theorem none_reduction_invariant_witness:
  "stat_scores_multiple_classes (Label (LongT [0, 1, 2, 3])) (LongT [0, 2, 2, 2]) None 1 ''none'' =
     Inr (Vector [Fin 1, Fin 0, Fin 1, Fin 0], Vector [Fin 0, Fin 1, Fin 0, Fin 1],
          Vector [Fin 3, Fin 3, Fin 1, Fin 3], Vector [Fin 0, Fin 0, Fin 2, Fin 0],
          Vector [Fin 1, Fin 0, Fin 3, Fin 0]) \<and>
   sum_list [1, 0, 3, 0] = real (length (vals (LongT [0, 2, 2, 2])))"
proof -
  have conv: "convert_pred (Label (LongT [0, 1, 2, 3])) 1 = Inr (LongT [0, 1, 2, 3])"
    by (simp add: convert_pred_def)
  have nc: "get_num_classes (LongT [0, 1, 2, 3]) (LongT [0, 2, 2, 2]) None = Inr 4"
    by (simp add: get_num_classes_def)
  have run: "stat_scores_multiple_classes (Label (LongT [0, 1, 2, 3])) (LongT [0, 2, 2, 2]) None 1
      ''none'' =
     Inr (Vector [Fin 1, Fin 0, Fin 1, Fin 0], Vector [Fin 0, Fin 1, Fin 0, Fin 1],
          Vector [Fin 3, Fin 3, Fin 1, Fin 3], Vector [Fin 0, Fin 0, Fin 2, Fin 0],
          Vector [Fin 1, Fin 0, Fin 3, Fin 0])"
    by code_simp
  have size_pred: "length (vals (LongT [0, 1, 2, 3])) \<le> float32_exact_max"
    by (simp add: float32_exact_max_def)
  have size_target: "length (vals (LongT [0, 2, 2, 2])) \<le> float32_exact_max"
    by (simp add: float32_exact_max_def)
  from none_reduction_invariant [OF conv nc size_pred size_target run] show ?thesis
    using run by auto
qed

text \<open>
  With \<open>num_classes = 1\<close> and the labels \<open>[0, 1]\<close> the support vector is \<open>[1]\<close>: it sums to 1,
  not to the 2 elements.
\<close>

theorem none_support_counterexample:
  "stat_scores_multiple_classes (Label (LongT [0, 1])) (LongT [0, 1]) (Some 1) 1 ''none'' =
     Inr (Vector [Fin 1], Vector [Fin 0], Vector [Fin 1], Vector [Fin 0], Vector [Fin 1]) \<and>
   sum_list [1] \<noteq> real (length (vals (LongT [0, 1])))"
proof -
  have "stat_scores_multiple_classes (Label (LongT [0, 1])) (LongT [0, 1]) (Some 1) 1 ''none'' =
     Inr (Vector [Fin 1], Vector [Fin 0], Vector [Fin 1], Vector [Fin 0], Vector [Fin 1])"
    by code_simp
  then show ?thesis by simp
qed

subsection \<open>The aggregate of \<^verbatim>\<open>'sum'\<close> against the vectors of \<^verbatim>\<open>'none'\<close>\<close>

lemma scatter_match_true:
  "length P = length T \<Longrightarrow> \<forall>x\<in>set P. x \<le> (k::int) \<Longrightarrow>
   sum_list (map snd (filter (\<lambda>(i, s). i < k)
     (zip P (map2 (\<lambda>x y. if x = y then 1 else 0) P T)))) =
   real_of_int (count_true (map2 (=) P T)) -
   real_of_int (count_true (map2 (\<and>) (map (\<lambda>x. x = k) P) (map (\<lambda>x. x = k) T)))"
  unfolding count_true_def by (induction P T rule: list_induct2) auto

lemma scatter_match_false_pred:
  "length P = length T \<Longrightarrow> \<forall>x\<in>set P. x \<le> (k::int) \<Longrightarrow>
   sum_list (map snd (filter (\<lambda>(i, s). i < k)
     (zip P (map (\<lambda>m. 1 - m) (map2 (\<lambda>x y. if x = y then 1 else 0) P T))))) =
   real (length P) - real_of_int (count_true (map2 (=) P T)) -
   real_of_int (count_true (map2 (\<and>) (map (\<lambda>x. x = k) P) (map (\<lambda>x. x \<noteq> k) T)))"
  unfolding count_true_def by (induction P T rule: list_induct2) auto

lemma scatter_match_false_target:
  "length P = length T \<Longrightarrow> \<forall>x\<in>set T. x \<le> (k::int) \<Longrightarrow>
   sum_list (map snd (filter (\<lambda>(i, s). i < k)
     (zip T (map (\<lambda>m. 1 - m) (map2 (\<lambda>x y. if x = y then 1 else 0) P T))))) =
   real (length P) - real_of_int (count_true (map2 (=) P T)) -
   real_of_int (count_true (map2 (\<and>) (map (\<lambda>x. x \<noteq> k) P) (map (\<lambda>x. x = k) T)))"
  unfolding count_true_def by (induction P T rule: list_induct2) auto

lemma scatter_ones_target:
  "length P = length T \<Longrightarrow> \<forall>x\<in>set T. x \<le> (k::int) \<Longrightarrow>
   sum_list (map snd (filter (\<lambda>(i, s). i < k)
     (zip T (map (\<lambda>m. 1) (map2 (\<lambda>x y. if x = y then (1::real) else 0) P T))))) =
   real (length P) - real_of_int (count_true (map (\<lambda>x. x = k) T))"
  unfolding count_true_def by (induction P T rule: list_induct2) auto

lemma overflow_count:
  "length P = length T \<Longrightarrow>
   real (length (filter (\<lambda>(x, y). x = (k::int) \<or> y = k) (zip P T))) =
   real (length P) -
   real_of_int (count_true (map2 (\<and>) (map (\<lambda>x. x \<noteq> k) P) (map (\<lambda>x. x \<noteq> k) T)))"
  unfolding count_true_def by (induction P T rule: list_induct2) auto

lemma sum_list_take_tns:
  "length xs = length ys \<Longrightarrow> length ys = length zs \<Longrightarrow> n \<le> length xs \<Longrightarrow>
   sum_list (take n (map (\<lambda>(a, b, c). N - (a + b + c)) (zip xs (zip ys zs)))) =
   real n * N - (sum_list (take n xs) + sum_list (take n ys) + sum_list (take n zs))"
proof (induction xs ys zs arbitrary: n rule: list_induct3)
  case Nil
  then show ?case by simp
next
  case (Cons x xs y ys z zs)
  show ?case
  proof (cases n)
    case 0
    then show ?thesis by simp
  next
    case (Suc m)
    with Cons.prems have "m \<le> length xs" by simp
    from Cons.IH [OF this] Suc show ?thesis by (simp add: algebra_simps)
  qed
qed

lemma scatter_add_zeros_sum:
  assumes "scatter_add (replicate (nat (k + 1)) 0) idx src = Inr r"
  shows "sum_list (take (nat k) r) = sum_list (map snd (filter (\<lambda>(i, s). i < k) (zip idx src)))"
    and "\<forall>x\<in>set idx. 0 \<le> x \<and> x \<le> k"
proof -
  show rng: "\<forall>x\<in>set idx. 0 \<le> x \<and> x \<le> k"
  proof
    fix x assume "x \<in> set idx"
    from scatter_add_index_range [OF assms this] show "0 \<le> x \<and> x \<le> k"
      by (auto split: if_splits)
  qed
  have z: "sum_list (take (nat k) (replicate (nat (k + 1)) (0::real))) = 0"
    by (simp add: sum_list_replicate)
  have "filter (\<lambda>(i, s). i < int (nat k)) (zip idx src) = filter (\<lambda>(i, s). i < k) (zip idx src)"
  proof (rule filter_cong [OF refl])
    fix x assume x: "x \<in> set (zip idx src)"
    have "fst x \<in> set idx"
      by (rule set_zip_leftD [of _ "snd x" _ src]) (use x in simp)
    with rng have "0 \<le> fst x" by simp
    then show "(case x of (i, s) \<Rightarrow> i < int (nat k)) = (case x of (i, s) \<Rightarrow> i < k)"
      by (cases x) auto
  qed
  with scatter_add_sum_take [OF assms, of "nat k"] z show
    "sum_list (take (nat k) r) = sum_list (map snd (filter (\<lambda>(i, s). i < k) (zip idx src)))"
    by simp
qed

text \<open>
  For matching shapes and in the exact arithmetic of the model (that of the code for
  tensors of at most \<open>2 ^ 24\<close> elements), the aggregates of lines 127-131 are the class
  sums of the vectors of lines 111-121 for the true positives, the false positives, the
  false negatives and the support. The true negatives of line 130 exceed the class sum by the number of
  elements whose prediction or target is in the overflow class \<open>k\<close>.
\<close>

lemma sum_reduction_against_none:
  assumes shape: "length (vals p) = length (vals t)"
    and none: "stats_none p t k = Inr (tpv, fpv, tnv, fnv, supv)"
    and sum: "stats_sum p t k d = Inr (tp, fp, tn, fn, sp)"
  shows "tp = sum_list tpv" and "fp = sum_list fpv" and "fn = sum_list fnv"
    and "sp = sum_list supv"
    and "tn = sum_list tnv +
       real (length (filter (\<lambda>(x, y). x = k \<or> y = k) (zip (vals p) (vals t))))"
proof -
  let ?P = "vals p" and ?T = "vals t"
  let ?M = "map2 (\<lambda>x y. if x = y then 1 else 0 :: real) ?P ?T"
  let ?Z = "replicate (nat (k + 1)) (0::real)"
  from none shape obtain tps1 fps1 fns1 sups1 where
    k0: "0 \<le> k + 1"
    and s1: "scatter_add ?Z ?P ?M = Inr tps1"
    and s2: "scatter_add ?Z ?P (map (\<lambda>m. 1 - m) ?M) = Inr fps1"
    and s3: "scatter_add ?Z ?T (map (\<lambda>m. 1 - m) ?M) = Inr fns1"
    and s4: "scatter_add ?Z ?T (map (\<lambda>m. 1) ?M) = Inr sups1"
    and r: "tpv = take (nat k) tps1" "fpv = take (nat k) fps1" "fnv = take (nat k) fns1"
      "supv = take (nat k) sups1"
      "tnv = take (nat k) (map (\<lambda>(a, b, c). real (length ?P) - (a + b + c))
          (zip tps1 (zip fps1 fns1)))"
    by (auto simp: stats_none_def Let_def bnd_Inr_iff broadcast2_def dest!: zeros_Inr)
  from sum shape have
    v: "tp = real_of_int (count_true (map2 (=) ?P ?T)) -
          real_of_int (count_true (map2 (\<and>) (map (\<lambda>x. x = k) ?P) (map (\<lambda>x. x = k) ?T)))"
       "fp = real (length ?P) - real_of_int (count_true (map2 (=) ?P ?T)) -
          real_of_int (count_true (map2 (\<and>) (map (\<lambda>x. x = k) ?P) (map (\<lambda>x. x \<noteq> k) ?T)))"
       "fn = real (length ?P) - real_of_int (count_true (map2 (=) ?P ?T)) -
          real_of_int (count_true (map2 (\<and>) (map (\<lambda>x. x \<noteq> k) ?P) (map (\<lambda>x. x = k) ?T)))"
       "sp = real (length ?P) - real_of_int (count_true (map (\<lambda>x. x = k) ?T))"
       "tn = real (length ?P) * real_of_int (k + 1) - (tp + fp + fn +
          real_of_int (count_true (map2 (\<and>) (map (\<lambda>x. x \<noteq> k) ?P) (map (\<lambda>x. x \<noteq> k) ?T))))"
    by (auto simp: stats_sum_def Let_def bnd_Inr_iff broadcast2_def
        stat_scores_same_shape [of "Label p" d p t k, unfolded convert_pred_def, simplified])
  have pk: "\<forall>x\<in>set ?P. x \<le> k" and tk: "\<forall>x\<in>set ?T. x \<le> k"
    using scatter_add_zeros_sum(2) [OF s1] scatter_add_zeros_sum(2) [OF s4] by simp_all
  show tp: "tp = sum_list tpv"
    using scatter_add_zeros_sum(1) [OF s1] scatter_match_true [OF shape pk] r(1) v(1) by simp
  show fp: "fp = sum_list fpv"
    using scatter_add_zeros_sum(1) [OF s2] scatter_match_false_pred [OF shape pk] r(2) v(2)
    by simp
  show fn: "fn = sum_list fnv"
    using scatter_add_zeros_sum(1) [OF s3] scatter_match_false_target [OF shape tk] r(3) v(3)
    by simp
  show "sp = sum_list supv"
    using scatter_add_zeros_sum(1) [OF s4] scatter_ones_target [OF shape tk] r(4) v(4) by simp
  have l: "length tps1 = nat (k + 1)" "length fps1 = nat (k + 1)" "length fns1 = nat (k + 1)"
    using scatter_add_length [OF s1] scatter_add_length [OF s2] scatter_add_length [OF s3]
    by simp_all
  have "sum_list tnv = real (nat k) * real (length ?P) -
      (sum_list (take (nat k) tps1) + sum_list (take (nat k) fps1) + sum_list (take (nat k) fns1))"
    unfolding r(5) by (rule sum_list_take_tns) (use l in simp_all)
  then have tnv: "sum_list tnv = real (nat k) * real (length ?P) - (tp + fp + fn)"
    using tp fp fn r(1-3) by simp
  have "real (nat k) * real (length ?P) = real_of_int k * real (length ?P)"
  proof (cases "0 \<le> k")
    case True
    then show ?thesis by simp
  next
    case False
    with k0 have "k = - 1" by simp
    moreover have "?P = []"
    proof (cases ?P)
      case Nil
      then show ?thesis .
    next
      case (Cons x xs)
      then have "x \<in> set ?P" by simp
      with scatter_add_zeros_sum(2) [OF s1] have "0 \<le> x \<and> x \<le> k" by blast
      with \<open>k = - 1\<close> show ?thesis by simp
    qed
    ultimately show ?thesis by simp
  qed
  with tnv v(5) overflow_count [OF shape, of k] show
    "tn = sum_list tnv +
       real (length (filter (\<lambda>(x, y). x = k \<or> y = k) (zip ?P ?T)))"
    by (simp add: algebra_simps)
qed

text \<open>
  C3. The results of \<^verbatim>\<open>reduction = 'sum'\<close> against the class sums of the vectors of
  \<^verbatim>\<open>reduction = 'none'\<close>, at \<open>pred = target = [0, 1]\<close> and \<open>num_classes = 1\<close>: the true
  negatives are 2 in the first and \<open>[1]\<close> in the second.
\<close>

theorem sum_reduction_true_negatives:
  "stat_scores_multiple_classes (Label (LongT [0, 1])) (LongT [0, 1]) (Some 1) 1 ''sum'' =
     Inr (Scalar (Fin 1), Scalar (Fin 0), Scalar (Fin 2), Scalar (Fin 0), Scalar (Fin 1)) \<and>
   stat_scores_multiple_classes (Label (LongT [0, 1])) (LongT [0, 1]) (Some 1) 1 ''none'' =
     Inr (Vector [Fin 1], Vector [Fin 0], Vector [Fin 1], Vector [Fin 0], Vector [Fin 1])"
  by code_simp

text \<open>
  C4. Each of the five results of \<^verbatim>\<open>reduction = 'elementwise_mean'\<close> is the result of
  \<^verbatim>\<open>reduction = 'sum'\<close> on the same input divided by the number of classes.
\<close>

theorem elementwise_mean_is_sum_divided:
  assumes "preprocess pred target num_classes argmax_dim = Inr (p, t, k)"
    and "stat_scores_multiple_classes pred target num_classes argmax_dim ''sum'' =
       Inr (Scalar tps, Scalar fps, Scalar tns, Scalar fns, Scalar sups)"
  shows "stat_scores_multiple_classes pred target num_classes argmax_dim ''elementwise_mean'' =
       Inr (Scalar (fl_div tps (Fin (real_of_int k))), Scalar (fl_div fps (Fin (real_of_int k))),
            Scalar (fl_div tns (Fin (real_of_int k))), Scalar (fl_div fns (Fin (real_of_int k))),
            Scalar (fl_div sups (Fin (real_of_int k))))"
proof -
  from assms(2) obtain a b c d e where
    st: "stats_sum p t k argmax_dim = Inr (a, b, c, d, e)"
    and out: "tps = Fin a" "fps = Fin b" "tns = Fin c" "fns = Fin d" "sups = Fin e"
    unfolding stat_scores_multiple_classes_def assms(1)
    by (auto simp: possible_reductions_def bnd_Inr_iff bnd_def[of "Inr _"])
  show ?thesis
    unfolding stat_scores_multiple_classes_def assms(1)
    by (simp add: possible_reductions_def bnd_def st out Let_def del: fl_div.simps)
qed

theorem elementwise_mean_is_sum_divided_witness:
  "stat_scores_multiple_classes (Label (LongT [0, 1, 2, 3])) (LongT [0, 2, 2, 2]) None 1
     ''elementwise_mean'' =
   Inr (Scalar (Fin (1 / 2)), Scalar (Fin (1 / 2)), Scalar (Fin (5 / 2)), Scalar (Fin (1 / 2)),
        Scalar (Fin 1))"
proof -
  have pre: "preprocess (Label (LongT [0, 1, 2, 3])) (LongT [0, 2, 2, 2]) None 1 =
      Inr (LongT [0, 1, 2, 3], LongT [0, 2, 2, 2], 4)"
    by (simp add: preprocess_def convert_pred_def get_num_classes_def bnd_def)
  have run: "stat_scores_multiple_classes (Label (LongT [0, 1, 2, 3])) (LongT [0, 2, 2, 2]) None 1
      ''sum'' =
     Inr (Scalar (Fin 2), Scalar (Fin 2), Scalar (Fin 10), Scalar (Fin 2), Scalar (Fin 4))"
    by code_simp
  from elementwise_mean_is_sum_divided [OF pre run] show ?thesis by simp
qed

text \<open>
  C5, as the code has it. The steps of lines 85-93 (arg-max conversion, number of classes)
  run before the reduction is looked at, and what they raise is raised whatever the
  reduction is. \<^verbatim>\<open>stat_scores_multiple_classes\<close> raises a \<^verbatim>\<open>ValueError\<close> if and only if
  the reduction is not one of \<^verbatim>\<open>'none'\<close>, \<^verbatim>\<open>'sum'\<close>, \<^verbatim>\<open>'elementwise_mean'\<close> and these
  steps have returned; its message names the reduction, and it is raised whatever the
  tensors hold: no statistic is computed. In the witness the statistics of the same
  tensors would raise on their own.
\<close>

theorem unsupported_reduction:
  "((\<exists>msg. stat_scores_multiple_classes pred target num_classes argmax_dim reduction =
        Inl (ValueError msg)) \<longleftrightarrow>
    reduction \<notin> set possible_reductions \<and>
    (\<exists>x. preprocess pred target num_classes argmax_dim = Inr x)) \<and>
   ((\<exists>msg. stat_scores_multiple_classes pred target num_classes argmax_dim reduction =
        Inl (ValueError msg)) \<longrightarrow>
    stat_scores_multiple_classes pred target num_classes argmax_dim reduction =
      Inl (ValueError (''reduction type '' @ reduction @ '' not supported''))) \<and>
   (\<forall>e. preprocess pred target num_classes argmax_dim = Inl e \<longrightarrow>
      stat_scores_multiple_classes pred target num_classes argmax_dim reduction = Inl e)"
proof -
  let ?r = "stat_scores_multiple_classes pred target num_classes argmax_dim reduction"
  let ?m = "''reduction type '' @ reduction @ '' not supported''"
  have early: "?r = Inl e" if "preprocess pred target num_classes argmax_dim = Inl e" for e
    using that by (simp add: stat_scores_multiple_classes_def bnd_def)
  have raised: "?r = Inl (ValueError ?m)"
    if "reduction \<notin> set possible_reductions"
      and "\<exists>x. preprocess pred target num_classes argmax_dim = Inr x"
    using that by (auto simp: stat_scores_multiple_classes_def bnd_def)
  have only: "reduction \<notin> set possible_reductions \<and>
      (\<exists>x. preprocess pred target num_classes argmax_dim = Inr x)"
    if v: "?r = Inl (ValueError msg)" for msg
  proof
    show "reduction \<notin> set possible_reductions"
      using valid_reduction_no_ValueError v by blast
    show "\<exists>x. preprocess pred target num_classes argmax_dim = Inr x"
    proof (cases "preprocess pred target num_classes argmax_dim")
      case (Inl e)
      with early [OF Inl] v preprocess_Inl [OF Inl] show ?thesis by auto
    next
      case (Inr x)
      then show ?thesis by blast
    qed
  qed
  show ?thesis
    using early raised only by blast
qed

theorem unsupported_reduction_witness:
  "stat_scores_multiple_classes (Label (LongT [- 1])) (LongT [0]) None 1 ''mean'' =
     Inl (ValueError ''reduction type mean not supported'') \<and>
   stat_scores_multiple_classes (Label (LongT [- 1])) (LongT [0]) None 1 ''none'' =
     Inl RuntimeError"
proof -
  have pre: "\<exists>x. preprocess (Label (LongT [- 1])) (LongT [0]) None 1 = Inr x"
    by (simp add: preprocess_def convert_pred_def get_num_classes_def bnd_def)
  have bad: "''mean'' \<notin> set possible_reductions"
    by (simp add: possible_reductions_def)
  from unsupported_reduction [of "Label (LongT [- 1])" "LongT [0]" None 1 "''mean''"] pre bad
  have "stat_scores_multiple_classes (Label (LongT [- 1])) (LongT [0]) None 1 ''mean'' =
     Inl (ValueError (''reduction type '' @ ''mean'' @ '' not supported''))"
    by blast
  moreover have
    "stat_scores_multiple_classes (Label (LongT [- 1])) (LongT [0]) None 1 ''none'' =
     Inl RuntimeError"
    by code_simp
  ultimately show ?thesis by simp
qed

text \<open>
  An unsupported reduction that does not lead to a \<^verbatim>\<open>ValueError\<close>: with empty tensors
  and no number of classes, the inference of the number of classes raises first; with an
  arg-max axis that the prediction does not have, the conversion does.
\<close>

theorem unsupported_reduction_counterexample:
  "''mean'' \<notin> set possible_reductions \<and>
   stat_scores_multiple_classes (Label (LongT [])) (LongT []) None 1 ''mean'' =
     Inl RuntimeError \<and>
   stat_scores_multiple_classes (Prob 2 [[1, 0]]) (LongT [0]) (Some 2) 5 ''mean'' =
     Inl IndexError"
proof -
  have "''mean'' \<notin> set possible_reductions"
    by (simp add: possible_reductions_def)
  moreover have
    "stat_scores_multiple_classes (Label (LongT [])) (LongT []) None 1 ''mean'' =
     Inl RuntimeError"
    by (simp add: stat_scores_multiple_classes_def preprocess_def convert_pred_def
        get_num_classes_def bnd_def)
  moreover have
    "stat_scores_multiple_classes (Prob 2 [[1, 0]]) (LongT [0]) (Some 2) 5 ''mean'' =
     Inl IndexError"
    by (simp add: stat_scores_multiple_classes_def preprocess_def convert_pred_def
        to_categorical_def bnd_def)
  ultimately show ?thesis by blast
qed

section \<open>Properties of precision and recall\<close>

text \<open>
  C6. For \<open>pred = [0, 1, 2, 3]\<close>, \<open>target = [0, 2, 2, 2]\<close> and the macro strategy,
  \<^verbatim>\<open>precision_recall\<close> returns the precision \<open>1 / 2\<close> and the recall \<open>1 / 3\<close>: the means
  of the per-class ratios, a ratio \<open>0 / 0\<close> counting as 0.
\<close>

theorem precision_recall_macro_example:
  "precision_recall (Label (LongT [0, 1, 2, 3])) (LongT [0, 2, 2, 2]) None Macro False False =
     Inr (PrecRec (Scalar (Fin (1 / 2))) (Scalar (Fin (1 / 3))))"
  by code_simp

text \<open>
  C10. With \<^verbatim>\<open>return_state = True\<close>, \<^verbatim>\<open>precision_recall\<close> returns the dictionary of the
  raw state with the keys \<^verbatim>\<open>'tps'\<close>, \<^verbatim>\<open>'fps'\<close>, \<^verbatim>\<open>'fns'\<close>, \<^verbatim>\<open>'sups'\<close> and nothing
  else, whatever \<^verbatim>\<open>return_support\<close> is; it raises where
  \<^verbatim>\<open>stat_scores_multiple_classes\<close> does.
\<close>

theorem precision_recall_state:
  "precision_recall pred target num_classes class_reduction return_support True =
     (case stat_scores_multiple_classes pred target num_classes 1 ''none'' of
        Inl e \<Rightarrow> Inl e
      | Inr (tps, fps, tns, fns, sups) \<Rightarrow>
          Inr (State [(''tps'', tps), (''fps'', fps), (''fns'', fns), (''sups'', sups)]))"
  by (simp add: precision_recall_def bnd_def Let_def split: sum.splits prod.splits)

theorem precision_recall_state_witness:
  "precision_recall (Label (LongT [0, 1, 2, 3])) (LongT [0, 2, 2, 2]) None Macro True True =
     Inr (State [(''tps'', Vector [Fin 1, Fin 0, Fin 1, Fin 0]),
                 (''fps'', Vector [Fin 0, Fin 1, Fin 0, Fin 1]),
                 (''fns'', Vector [Fin 0, Fin 0, Fin 2, Fin 0]),
                 (''sups'', Vector [Fin 1, Fin 0, Fin 3, Fin 0])])"
proof -
  have run: "stat_scores_multiple_classes (Label (LongT [0, 1, 2, 3])) (LongT [0, 2, 2, 2]) None 1
      ''none'' =
     Inr (Vector [Fin 1, Fin 0, Fin 1, Fin 0], Vector [Fin 0, Fin 1, Fin 0, Fin 1],
          Vector [Fin 3, Fin 3, Fin 1, Fin 3], Vector [Fin 0, Fin 0, Fin 2, Fin 0],
          Vector [Fin 1, Fin 0, Fin 3, Fin 0])"
    by code_simp
  show ?thesis
    unfolding precision_recall_state [of "Label (LongT [0, 1, 2, 3])" "LongT [0, 2, 2, 2]" None
        Macro True] run
    by simp
qed

section \<open>Properties of the dice score\<close>

lemma fl_add_zero_left: "fl_add (Fin 0) x = x"
  by (cases x) simp_all

lemma dice_loop_length:
  "dice_loop pred target bg nan_score no_fg_score cs (s, c) = Inr (s', c') \<Longrightarrow>
   length s' = length s"
proof (induction cs arbitrary: s c)
  case Nil
  then show ?case by simp
next
  case (Cons i cs)
  show ?case
  proof (cases "int i \<in> set (vals target)")
    case False
    with Cons.prems Cons.IH show ?thesis by fastforce
  next
    case True
    with Cons.prems Cons.IH show ?thesis
      by (fastforce simp: bnd_Inr_iff Let_def)
  qed
qed

lemma dice_loop_frame:
  "dice_loop pred target bg nan_score no_fg_score cs (s, c) = Inr (s', c') \<Longrightarrow>
   j \<notin> (\<lambda>i. i - bg) ` set cs \<Longrightarrow> s' ! j = s ! j"
proof (induction cs arbitrary: s c)
  case Nil
  then show ?case by simp
next
  case (Cons i cs)
  from Cons.prems(2) have ne: "j \<noteq> i - bg" and rest: "j \<notin> (\<lambda>i. i - bg) ` set cs"
    by auto
  show ?case
  proof (cases "int i \<in> set (vals target)")
    case False
    with Cons.prems(1) have
      "dice_loop pred target bg nan_score no_fg_score cs
         (s[i - bg := fl_add (s ! (i - bg)) no_fg_score], c) = Inr (s', c')"
      by simp
    from Cons.IH [OF this rest] ne show ?thesis by simp
  next
    case True
    with Cons.prems(1) obtain x c1 where
      "dice_loop pred target bg nan_score no_fg_score cs
         (s[i - bg := fl_add (s ! (i - bg)) x], c1) = Inr (s', c')"
      by (auto simp: bnd_Inr_iff Let_def)
    from Cons.IH [OF this rest] ne show ?thesis by simp
  qed
qed

lemma dice_loop_calls:
  "dice_loop pred target bg nan_score no_fg_score cs (s, c) = Inr (s', c') \<Longrightarrow>
   set c' = set c \<union> {i \<in> set cs. int i \<in> set (vals target)}"
proof (induction cs arbitrary: s c)
  case Nil
  then show ?case by simp
next
  case (Cons i cs)
  show ?case
  proof (cases "int i \<in> set (vals target)")
    case False
    with Cons.prems have
      "dice_loop pred target bg nan_score no_fg_score cs
         (s[i - bg := fl_add (s ! (i - bg)) no_fg_score], c) = Inr (s', c')"
      by simp
    from Cons.IH [OF this] False show ?thesis by auto
  next
    case True
    with Cons.prems obtain x where
      "dice_loop pred target bg nan_score no_fg_score cs
         (s[i - bg := fl_add (s ! (i - bg)) x], c @ [i]) = Inr (s', c')"
      by (auto simp: bnd_Inr_iff Let_def)
    from Cons.IH [OF this] True show ?thesis by auto
  qed
qed

lemma dice_loop_absent:
  assumes "dice_loop pred target bg nan_score no_fg_score cs (s, c) = Inr (s', c')"
    and "i \<in> set cs" and "distinct cs" and "\<forall>k\<in>set cs. bg \<le> k \<and> k - bg < length s"
    and "int i \<notin> set (vals target)"
  shows "s' ! (i - bg) = fl_add (s ! (i - bg)) no_fg_score"
  using assms
proof (induction cs arbitrary: s c)
  case Nil
  then show ?case by simp
next
  case (Cons a cs)
  have inj: "a - bg \<notin> (\<lambda>k. k - bg) ` set cs"
  proof
    assume "a - bg \<in> (\<lambda>k. k - bg) ` set cs"
    then obtain k where k: "k \<in> set cs" "a - bg = k - bg" by auto
    with Cons.prems(4) have "a = k" by (metis diff_add list.set_intros(1,2) add.commute le_add_diff_inverse)
    with k Cons.prems(3) show False by simp
  qed
  show ?case
  proof (cases "i = a")
    case True
    with Cons.prems(1,5) have run:
      "dice_loop pred target bg nan_score no_fg_score cs
         (s[a - bg := fl_add (s ! (a - bg)) no_fg_score], c) = Inr (s', c')"
      by simp
    have "a - bg < length s" using Cons.prems(4) by simp
    with dice_loop_frame [OF run inj] True show ?thesis by simp
  next
    case False
    with Cons.prems(2) have i: "i \<in> set cs" by simp
    from Cons.prems(1) obtain x c1 where run:
      "dice_loop pred target bg nan_score no_fg_score cs
         (s[a - bg := fl_add (s ! (a - bg)) x], c1) = Inr (s', c')"
      by (cases "int a \<in> set (vals target)") (auto simp: bnd_Inr_iff Let_def)
    have ne: "i - bg \<noteq> a - bg" using inj i by (metis imageI)
    have "s' ! (i - bg) = fl_add ((s[a - bg := fl_add (s ! (a - bg)) x]) ! (i - bg)) no_fg_score"
      using Cons.IH [OF run i] Cons.prems(3,4,5) by simp
    with ne show ?thesis by simp
  qed
qed

lemma dice_loop_present:
  assumes "dice_loop pred target bg nan_score no_fg_score cs (s, c) = Inr (s', c')"
    and "i \<in> set cs" and "distinct cs" and "\<forall>k\<in>set cs. bg \<le> k \<and> k - bg < length s"
    and "int i \<in> set (vals target)"
  shows "\<exists>tp fp tn fn sp.
     stat_scores pred target (int i) 1 = Inr (tp, fp, tn, fn, sp) \<and>
     s' ! (i - bg) = fl_add (s ! (i - bg))
       (score_cls tp fp fn nan_score)"
  using assms
proof (induction cs arbitrary: s c)
  case Nil
  then show ?case by simp
next
  case (Cons a cs)
  have inj: "a - bg \<notin> (\<lambda>k. k - bg) ` set cs"
  proof
    assume "a - bg \<in> (\<lambda>k. k - bg) ` set cs"
    then obtain k where k: "k \<in> set cs" "a - bg = k - bg" by auto
    moreover have "bg \<le> a" "bg \<le> k" using Cons.prems(4) k(1) by simp_all
    ultimately have "a = k" by arith
    with k Cons.prems(3) show False by simp
  qed
  show ?case
  proof (cases "i = a")
    case True
    with Cons.prems(1,5) obtain tp fp tn fn sp where
      st: "stat_scores pred target (int a) 1 = Inr (tp, fp, tn, fn, sp)"
      and run: "dice_loop pred target bg nan_score no_fg_score cs
         (s[a - bg := fl_add (s ! (a - bg))
            (score_cls tp fp fn nan_score)], c @ [a]) = Inr (s', c')"
      by (auto simp: bnd_Inr_iff)
    have "a - bg < length s" using Cons.prems(4) by simp
    with dice_loop_frame [OF run inj] st True show ?thesis by simp
  next
    case False
    with Cons.prems(2) have i: "i \<in> set cs" by simp
    from Cons.prems(1) obtain x c1 where run:
      "dice_loop pred target bg nan_score no_fg_score cs
         (s[a - bg := fl_add (s ! (a - bg)) x], c1) = Inr (s', c')"
      by (cases "int a \<in> set (vals target)") (auto simp: bnd_Inr_iff Let_def)
    have ne: "i - bg \<noteq> a - bg" using inj i by (metis imageI)
    from Cons.IH [OF run i] Cons.prems(3,4,5) obtain tp fp tn fn sp where
      "stat_scores pred target (int i) 1 = Inr (tp, fp, tn, fn, sp)"
      "s' ! (i - bg) = fl_add ((s[a - bg := fl_add (s ! (a - bg)) x]) ! (i - bg))
       (score_cls tp fp fn nan_score)"
      by auto
    with ne show ?thesis by simp
  qed
qed

lemma dice_scores_loop:
  assumes "dice_scores (Prob num_classes rows) target bg nan_score no_fg_score = Inr (scores, calls)"
  shows "(if bg then 0 else 1) \<le> num_classes \<and>
     dice_loop (Prob num_classes rows) target (if bg then 0 else 1) nan_score no_fg_score
       [(if bg then 0 else 1)..<num_classes]
       (replicate (num_classes - (if bg then 0 else 1)) (Fin 0), []) = Inr (scores, calls)"
  using assms by (auto simp: dice_scores_def Let_def split: if_splits)

text \<open>
  C7. When the loop of \<^verbatim>\<open>dice_score\<close> completes, the score of a class \<open>i\<close> of the class
  range that no element of the target equals is \<open>no_fg_score\<close>, and \<^verbatim>\<open>stat_scores\<close> was
  not called for \<open>i\<close>. In the witness the call would have raised: the prediction has two
  elements and the target three.
\<close>

theorem dice_no_foreground:
  assumes run: "dice_scores (Prob num_classes rows) target bg nan_score no_fg_score =
       Inr (scores, calls)"
    and lo: "(if bg then 0 else 1) \<le> i" and hi: "i < num_classes"
    and absent: "int i \<notin> set (vals target)"
  shows "scores ! (i - (if bg then 0 else 1)) = no_fg_score \<and> i \<notin> set calls"
proof -
  let ?b = "if bg then 0 else 1 :: nat"
  let ?z = "replicate (num_classes - ?b) (Fin 0)"
  from dice_scores_loop [OF run] have
    loop: "dice_loop (Prob num_classes rows) target ?b nan_score no_fg_score
       [?b..<num_classes] (?z, []) = Inr (scores, calls)"
    by simp
  have i: "i \<in> set [?b..<num_classes]" using lo hi by simp
  have rng: "\<forall>k\<in>set [?b..<num_classes]. ?b \<le> k \<and> k - ?b < length ?z" by auto
  have "scores ! (i - ?b) = fl_add (?z ! (i - ?b)) no_fg_score"
    by (rule dice_loop_absent [OF loop i _ rng absent]) simp
  moreover have "?z ! (i - ?b) = Fin 0" using lo hi by auto
  ultimately have "scores ! (i - ?b) = no_fg_score" by (simp add: fl_add_zero_left)
  moreover have "i \<notin> set calls"
    using dice_loop_calls [OF loop] absent by simp
  ultimately show ?thesis by simp
qed

theorem dice_no_foreground_witness:
  "dice_scores (Prob 3 [[1, 0, 0], [0, 1, 0]]) (LongT [0, 0, 0]) False (Fin 7) (Fin 5) =
     Inr ([Fin 5, Fin 5], []) \<and>
   stat_scores (Prob 3 [[1, 0, 0], [0, 1, 0]]) (LongT [0, 0, 0]) 1 1 = Inl RuntimeError"
proof -
  have run: "dice_scores (Prob 3 [[1, 0, 0], [0, 1, 0]]) (LongT [0, 0, 0]) False (Fin 7) (Fin 5) =
      Inr ([Fin 5, Fin 5], [])"
    by code_simp
  have lo: "(if False then 0 else 1) \<le> (1::nat)" by simp
  have hi: "(1::nat) < 3" by simp
  have absent: "int 1 \<notin> set (vals (LongT [0, 0, 0]))" by simp
  have raise: "stat_scores (Prob 3 [[1, 0, 0], [0, 1, 0]]) (LongT [0, 0, 0]) 1 1 = Inl RuntimeError"
    by code_simp
  from dice_no_foreground [OF run lo hi absent] show ?thesis using run raise by simp
qed

text \<open>
  C8. When the loop of \<^verbatim>\<open>dice_score\<close> completes, for a class \<open>i\<close> of the class range that
  some element of the target equals, with the counts \<^verbatim>\<open>stat_scores\<close> returns for \<open>i\<close> and
  \<open>denom = 2 * TP + FP + FN\<close>, the score of the class is \<open>2 * TP / denom\<close> when \<open>denom\<close> is
  not zero and \<open>nan_score\<close> otherwise; when \<open>denom > 0\<close> the score is in \<open>[0, 1]\<close>.
\<close>

theorem dice_foreground:
  assumes run: "dice_scores (Prob num_classes rows) target bg nan_score no_fg_score =
       Inr (scores, calls)"
    and lo: "(if bg then 0 else 1) \<le> i" and hi: "i < num_classes"
    and present: "int i \<in> set (vals target)"
  shows "\<exists>tp fp tn fn sp.
     stat_scores (Prob num_classes rows) target (int i) 1 = Inr (tp, fp, tn, fn, sp) \<and>
     scores ! (i - (if bg then 0 else 1)) =
       (if 2 * tp + fp + fn \<noteq> 0
        then Fin (real_of_int (2 * tp) / real_of_int (2 * tp + fp + fn)) else nan_score) \<and>
     (0 < 2 * tp + fp + fn \<longrightarrow>
       (\<exists>x. scores ! (i - (if bg then 0 else 1)) = Fin x \<and> 0 \<le> x \<and> x \<le> 1))"
proof -
  let ?b = "if bg then 0 else 1 :: nat"
  let ?z = "replicate (num_classes - ?b) (Fin 0)"
  from dice_scores_loop [OF run] have
    loop: "dice_loop (Prob num_classes rows) target ?b nan_score no_fg_score
       [?b..<num_classes] (?z, []) = Inr (scores, calls)"
    by simp
  have i: "i \<in> set [?b..<num_classes]" using lo hi by simp
  have rng: "\<forall>k\<in>set [?b..<num_classes]. ?b \<le> k \<and> k - ?b < length ?z" by auto
  have z: "?z ! (i - ?b) = Fin 0" using lo hi by auto
  have "\<exists>tp fp tn fn sp.
     stat_scores (Prob num_classes rows) target (int i) 1 = Inr (tp, fp, tn, fn, sp) \<and>
     scores ! (i - ?b) = fl_add (?z ! (i - ?b))
       (score_cls tp fp fn nan_score)"
    by (rule dice_loop_present [OF loop i _ rng present]) simp
  then obtain tp fp tn fn sp where
    st: "stat_scores (Prob num_classes rows) target (int i) 1 = Inr (tp, fp, tn, fn, sp)"
    and sc: "scores ! (i - ?b) = score_cls tp fp fn nan_score"
    unfolding z fl_add_zero_left by blast
  from stat_scores_nonneg [OF st] have nn: "0 \<le> tp" "0 \<le> fp" "0 \<le> fn" by simp_all
  have val: "scores ! (i - ?b) =
       (if 2 * tp + fp + fn \<noteq> 0
        then Fin (real_of_int (2 * tp) / real_of_int (2 * tp + fp + fn)) else nan_score)"
    using sc by (simp add: score_cls_def)
  have bound: "\<exists>x. scores ! (i - ?b) = Fin x \<and> 0 \<le> x \<and> x \<le> 1" if pos: "0 < 2 * tp + fp + fn"
  proof -
    let ?x = "real_of_int (2 * tp) / real_of_int (2 * tp + fp + fn)"
    have "scores ! (i - ?b) = Fin ?x" using val pos by simp
    moreover have "0 \<le> ?x" using nn pos by simp
    moreover have "?x \<le> 1" using nn pos by simp
    ultimately show ?thesis by blast
  qed
  show ?thesis using st val bound by blast
qed

theorem dice_foreground_witness:
  "dice_scores (Prob 4 [[0.85, 0.05, 0.05, 0.05], [0.05, 0.85, 0.05, 0.05],
       [0.05, 0.05, 0.85, 0.05], [0.05, 0.05, 0.05, 0.85]]) (LongT [0, 1, 3, 2]) False
     (Fin 0) (Fin 0) = Inr ([Fin 1, Fin 0, Fin 0], [1, 2, 3]) \<and>
   stat_scores (Prob 4 [[0.85, 0.05, 0.05, 0.05], [0.05, 0.85, 0.05, 0.05],
       [0.05, 0.05, 0.85, 0.05], [0.05, 0.05, 0.05, 0.85]]) (LongT [0, 1, 3, 2]) 1 1 =
     Inr (1, 0, 3, 0, 1)"
proof -
  let ?p = "Prob 4 [[0.85, 0.05, 0.05, 0.05], [0.05, 0.85, 0.05, 0.05],
       [0.05, 0.05, 0.85, 0.05], [0.05, 0.05, 0.05, 0.85]]"
  have run: "dice_scores ?p (LongT [0, 1, 3, 2]) False (Fin 0) (Fin 0) =
      Inr ([Fin 1, Fin 0, Fin 0], [1, 2, 3])"
    by code_simp
  have lo: "(if False then 0 else 1) \<le> (1::nat)" by simp
  have hi: "(1::nat) < 4" by simp
  have present: "int 1 \<in> set (vals (LongT [0, 1, 3, 2]))" by simp
  have st: "stat_scores ?p (LongT [0, 1, 3, 2]) 1 1 = Inr (1, 0, 3, 0, 1)"
    by code_simp
  from dice_foreground [OF run lo hi present] show ?thesis using run st by simp
qed

section \<open>Properties of the row normalisation\<close>

lemma no_nan_id:
  "filter (\<lambda>x. x = NaN) xs = [] \<Longrightarrow> map (\<lambda>x. if x = NaN then Fin 0 else x) xs = xs"
  by (induction xs) (auto split: if_splits)

lemma no_nan_rows_id:
  "filter (\<lambda>x. x = NaN) (concat xss) = [] \<Longrightarrow>
   map (map (\<lambda>x. if x = NaN then Fin 0 else x)) xss = xss"
  by (induction xss) (simp_all add: no_nan_id)

text \<open>
  C9, as the code has it. \<^verbatim>\<open>_confmat_normalize\<close> returns each entry divided by the sum of
  its row, with 0 in the place of every NaN of these quotients, so no NaN is left. It gives
  no advisory when no quotient is NaN, and otherwise exactly one, which states the number
  of NaN quotients. The values are the same function of the input in both cases.
\<close>

theorem confmat_normalize_result:
  "fst (confmat_normalize cm) =
     map (\<lambda>row. map (\<lambda>x. if fl_div x (fl_sum row) = NaN then Fin 0 else fl_div x (fl_sum row)) row) cm \<and>
   NaN \<notin> set (concat (fst (confmat_normalize cm))) \<and>
   snd (confmat_normalize cm) =
     (if length (filter (\<lambda>x. x = NaN)
           (concat (map (\<lambda>row. map (\<lambda>x. fl_div x (fl_sum row)) row) cm))) = 0
      then []
      else [str_of_nat (length (filter (\<lambda>x. x = NaN)
              (concat (map (\<lambda>row. map (\<lambda>x. fl_div x (fl_sum row)) row) cm)))) @
            '' nan values found in confusion matrix have been replaced with zeros.''])"
proof -
  let ?divided = "map (\<lambda>row. map (\<lambda>x. fl_div x (fl_sum row)) row) cm"
  let ?n = "length (filter (\<lambda>x. x = NaN) (concat ?divided))"
  let ?clean = "map (map (\<lambda>x. if x = NaN then Fin 0 else x)) ?divided"
  have clean: "?clean =
      map (\<lambda>row. map (\<lambda>x. if fl_div x (fl_sum row) = NaN then Fin 0 else fl_div x (fl_sum row)) row) cm"
    by (simp add: comp_def)
  have no_nan: "NaN \<notin> set (concat ?clean)"
    by (auto split: if_splits)
  have same: "?clean = ?divided" if "?n = 0"
    using that by (intro no_nan_rows_id) simp
  show ?thesis
  proof (cases "?n = 0")
    case True
    then have r: "confmat_normalize cm = (?divided, [])"
      unfolding confmat_normalize_def by (simp add: Let_def)
    have "fst (confmat_normalize cm) = ?clean" unfolding r using same [OF True] by simp
    then show ?thesis using no_nan True r unfolding clean by simp
  next
    case False
    then have r: "confmat_normalize cm =
        (?clean,
         [str_of_nat ?n @ '' nan values found in confusion matrix have been replaced with zeros.''])"
      unfolding confmat_normalize_def by (simp add: Let_def)
    have "fst (confmat_normalize cm) = ?clean" unfolding r by simp
    then show ?thesis using no_nan False r unfolding clean by simp
  qed
qed

theorem confmat_normalize_result_witness:
  "confmat_normalize [[Fin 1, Fin 1], [Fin 0, Fin 0]] =
     ([[Fin (1 / 2), Fin (1 / 2)], [Fin 0, Fin 0]],
      [''2 nan values found in confusion matrix have been replaced with zeros.''])"
proof -
  have n: "length (filter (\<lambda>x. x = NaN)
      (concat (map (\<lambda>row. map (\<lambda>x. fl_div x (fl_sum row)) row)
         [[Fin 1, Fin 1], [Fin 0, Fin 0]]))) = 2"
    by code_simp
  have s: "str_of_nat 2 = ''2''" by code_simp
  have "fst (confmat_normalize [[Fin 1, Fin 1], [Fin 0, Fin 0]]) =
      [[Fin (1 / 2), Fin (1 / 2)], [Fin 0, Fin 0]] \<and>
    snd (confmat_normalize [[Fin 1, Fin 1], [Fin 0, Fin 0]]) =
      [''2 nan values found in confusion matrix have been replaced with zeros.'']"
    using confmat_normalize_result [of "[[Fin 1, Fin 1], [Fin 0, Fin 0]]"]
    unfolding n s by (simp add: fl_sum_def)
  then show ?thesis by (simp add: prod_eq_iff)
qed

text \<open>No row of \<open>[[1, 1]]\<close> sums to zero: the call gives no advisory.\<close>

theorem confmat_no_advisory_counterexample:
  "confmat_normalize [[Fin 1, Fin 1]] = ([[Fin (1 / 2), Fin (1 / 2)]], []) \<and>
   length (snd (confmat_normalize [[Fin 1, Fin 1]])) \<noteq> 1"
proof -
  have "confmat_normalize [[Fin 1, Fin 1]] = ([[Fin (1 / 2), Fin (1 / 2)]], [])"
    by code_simp
  then show ?thesis by simp
qed

end
